theory Spec2Isabelle
  imports Main "HOL-Library.Sublist" "HOL-Library.Monad_Syntax"
begin

section \<open>Texts and the JavaScript string primitives the tool calls\<close>

text \<open>
  A text (a file's content, a route name, a path) is the list of its code units, as a
  JavaScript string is; the model covers code units below 256. Every delimiter the tool
  looks for is ASCII.

  \<open>is_space\<close> is the class \<^verbatim>\<open>\s\<close> of a regular expression, which is also what
  \<^verbatim>\<open>String.prototype.trim\<close> removes: tab, line feed, vertical tab, form feed, carriage
  return, space and the no-break space.
\<close>

definition is_space :: "char \<Rightarrow> bool" where
  "is_space c \<longleftrightarrow>
     c = CHR 0x09 \<or> c = CHR 0x0A \<or> c = CHR 0x0B \<or> c = CHR 0x0C \<or> c = CHR 0x0D \<or>
     c = CHR 0x20 \<or> c = CHR 0xA0"

definition trim :: "string \<Rightarrow> string" where
  "trim s = rev (dropWhile is_space (rev (dropWhile is_space s)))"

text \<open>The two halves of \<open>trim\<close>: \<^verbatim>\<open>trimStart\<close> is \<open>dropWhile is_space\<close>.\<close>

definition trimEnd :: "string \<Rightarrow> string" where
  "trimEnd s = rev (dropWhile is_space (rev s))"

definition startsWith :: "string \<Rightarrow> string \<Rightarrow> bool" where
  "startsWith s p \<longleftrightarrow> prefix p s"

definition endsWith :: "string \<Rightarrow> string \<Rightarrow> bool" where
  "endsWith s p \<longleftrightarrow> suffix p s"

text \<open>
  \<open>splitFirst pat s\<close> cuts \<open>s\<close> at the first (leftmost) occurrence of \<open>pat\<close>: the text
  before it and the text after it. It is \<^verbatim>\<open>indexOf\<close> with the two slices taken.
\<close>

fun splitFirst :: "string \<Rightarrow> string \<Rightarrow> (string \<times> string) option" where
  "splitFirst pat [] = (if pat = [] then Some ([], []) else None)"
| "splitFirst pat (c # cs) =
     (if prefix pat (c # cs) then Some ([], drop (length pat) (c # cs))
      else map_option (\<lambda>(b, a). (c # b, a)) (splitFirst pat cs))"

definition js_includes :: "string \<Rightarrow> string \<Rightarrow> bool" where
  "js_includes s pat \<longleftrightarrow> splitFirst pat s \<noteq> None"

text \<open>\<^verbatim>\<open>s.split("/")\<close>: the segments between the separators, empty ones included.\<close>

fun split_on :: "char \<Rightarrow> string \<Rightarrow> string list" where
  "split_on sep [] = [[]]"
| "split_on sep (c # cs) =
     (if c = sep then [] # split_on sep cs
      else (case split_on sep cs of
              [] \<Rightarrow> [[c]]
            | seg # segs \<Rightarrow> (c # seg) # segs))"

text \<open>
  The replacement text of \<^verbatim>\<open>String.prototype.replace\<close> is a template (ECMAScript
  GetSubstitution): \<^verbatim>\<open>$$\<close> stands for a dollar sign, \<^verbatim>\<open>$&\<close> for the matched text,
  \<^verbatim>\<open>$`\<close> for the text before the match and \<^verbatim>\<open>$'\<close> for the text after it. Neither
  pattern of the tool has a capture group that reaches the template (the first call's
  pattern has none, the second call's pattern is a string), so \<^verbatim>\<open>$1\<close> and the like
  stay as they are.
\<close>

fun getSubstitution :: "string \<Rightarrow> string \<Rightarrow> string \<Rightarrow> string \<Rightarrow> string" where
  "getSubstitution matched pre post (c # d # r) =
     (if c = CHR ''$'' \<and> d = CHR ''$'' then CHR ''$'' # getSubstitution matched pre post r
      else if c = CHR ''$'' \<and> d = CHR ''&'' then matched @ getSubstitution matched pre post r
      else if c = CHR ''$'' \<and> d = CHR 0x60 then pre @ getSubstitution matched pre post r
      else if c = CHR ''$'' \<and> d = CHR 0x27 then post @ getSubstitution matched pre post r
      else c # getSubstitution matched pre post (d # r))"
| "getSubstitution matched pre post r = r"

text \<open>\<^verbatim>\<open>s.replace(pat, repl)\<close> with a string pattern: the first occurrence only.\<close>

definition replace_str :: "string \<Rightarrow> string \<Rightarrow> string \<Rightarrow> string" where
  "replace_str s pat repl =
     (case splitFirst pat s of
        None \<Rightarrow> s
      | Some (pre, post) \<Rightarrow> pre @ getSubstitution pat pre post repl @ post)"

section \<open>The two regular expressions\<close>

text \<open>
  \<open>lit p s\<close> consumes the literal \<open>p\<close> at the head of \<open>s\<close> and returns the rest.
\<close>

definition lit :: "string \<Rightarrow> string \<Rightarrow> string option" where
  "lit p s = (if prefix p s then Some (drop (length p) s) else None)"

text \<open>
  The pattern \<^verbatim>\<open>/<script([^>]*)>([\s\S]*?)<\/script>/\<close> tried at the head of \<open>s\<close>.
  After the literal, the greedy first group must be followed by a closing angle bracket:
  it can only stop at the first one, since giving back characters leaves a character
  other than the bracket in its place. The lazy second group stops at the first
  \<^verbatim>\<open></script>\<close> after it. The result is the two groups and the text after the match.
\<close>

definition script_tail :: "string \<Rightarrow> (string \<times> string \<times> string) option" where
  "script_tail r =
     do {
       (attrs, r') \<leftarrow> splitFirst ''>'' r;
       (scriptContent, post) \<leftarrow> splitFirst ''</script>'' r';
       Some (attrs, scriptContent, post)
     }"

definition match_script_at :: "string \<Rightarrow> (string \<times> string \<times> string) option" where
  "match_script_at s = do { r \<leftarrow> lit ''<script'' s; script_tail r }"

text \<open>
  \<^verbatim>\<open>content.match(scriptRegex)\<close>: the pattern is tried at each position from the left;
  the result is the text before the match, the two groups and the text after the match.
\<close>

fun match_script :: "string \<Rightarrow> (string \<times> string \<times> string \<times> string) option" where
  "match_script [] = None"
| "match_script (c # cs) =
     (case match_script_at (c # cs) of
        Some (attrs, scriptContent, post) \<Rightarrow> Some ([], attrs, scriptContent, post)
      | None \<Rightarrow>
          map_option (\<lambda>(pre, attrs, scriptContent, post). (c # pre, attrs, scriptContent, post))
            (match_script cs))"

text \<open>
  The pattern \<^verbatim>\<open>/defineOptions\s*\(\s*\{[^}]*\}\s*\)\s*;?/\<close> tried at the head of \<open>s\<close>;
  the result is the text after the match. Each greedy run is followed by a character
  outside its class, so it is the whole run; the final \<^verbatim>\<open>\s*;?\<close> takes all the white
  space and then a semicolon when there is one.
\<close>

definition spaces :: "string \<Rightarrow> string" where
  "spaces s = dropWhile is_space s"

definition opt_semicolon :: "string \<Rightarrow> string" where
  "opt_semicolon s = (case s of [] \<Rightarrow> [] | c # r \<Rightarrow> if c = CHR '';'' then r else c # r)"

definition match_defineOptions_at :: "string \<Rightarrow> string option" where
  "match_defineOptions_at s =
     do {
       r1 \<leftarrow> lit ''defineOptions'' s;
       r2 \<leftarrow> lit ''('' (spaces r1);
       r3 \<leftarrow> lit ''{'' (spaces r2);
       r4 \<leftarrow> lit ''}'' (dropWhile (\<lambda>c. c \<noteq> CHR ''}'') r3);
       r5 \<leftarrow> lit '')'' (spaces r4);
       Some (opt_semicolon (spaces r5))
     }"



text \<open>The first match from the left: the text before it, the match, the text after it.\<close>

fun search_defineOptions :: "string \<Rightarrow> (string \<times> string \<times> string) option" where
  "search_defineOptions [] = None"
| "search_defineOptions (c # cs) =
     (case match_defineOptions_at (c # cs) of
        Some post \<Rightarrow> Some ([], take (length (c # cs) - length post) (c # cs), post)
      | None \<Rightarrow> map_option (\<lambda>(pre, m, post). (c # pre, m, post)) (search_defineOptions cs))"

text \<open>\<^verbatim>\<open>scriptContent.replace(/defineOptions.../, defineLine)\<close>.\<close>

definition replace_defineOptions :: "string \<Rightarrow> string \<Rightarrow> string" where
  "replace_defineOptions s repl =
     (case search_defineOptions s of
        None \<Rightarrow> s
      | Some (pre, m, post) \<Rightarrow> pre @ getSubstitution m pre post repl @ post)"

section \<open>The syntax tree of the route file\<close>

text \<open>
  The route file is read through the ts-morph library, which is not part of the tool; the
  model starts from the tree the library returns. A node carries what the tool asks of it:
  \<^item> \<open>ExportAssignment eq e\<close>: \<^verbatim>\<open>isExportEquals()\<close> is \<open>eq\<close>, false for
    \<^verbatim>\<open>export default e\<close> and true for \<^verbatim>\<open>export = e\<close>, which the parser gives the same
    kind; \<^verbatim>\<open>getExpression()\<close> is \<open>e\<close>;
  \<^item> \<open>VariableDeclaration name init\<close>: \<^verbatim>\<open>getInitializer()\<close> is \<open>init\<close>;
  \<^item> \<open>ArrayLiteralExpression es\<close>: \<^verbatim>\<open>getElements()\<close> is \<open>es\<close>;
  \<^item> \<open>AsExpression e t\<close>: \<^verbatim>\<open>getExpression()\<close> is \<open>e\<close>, \<open>t\<close> is the type node;
  \<^item> \<open>Identifier text decl\<close>: \<open>decl\<close> is
    \<^verbatim>\<open>getDefinitions()?.[0]?.getDeclarationNode()\<close>, a reference into the tree and not a
    child;
  \<^item> \<open>ObjectLiteralExpression ps\<close>: \<^verbatim>\<open>getProperties()\<close> is \<open>ps\<close>;
  \<^item> \<open>PropertyAssignment name key value\<close>: \<^verbatim>\<open>getName()\<close> is \<open>name\<close>, \<open>key\<close> is the name
    node (an identifier, a string literal, a computed name) and \<open>value\<close> the initializer;
  \<^item> \<open>NamedMember name cs\<close>: any other member of an object literal that has a name (a
    shorthand property, a method, an accessor), with its children;
  \<^item> \<open>StringLiteral s\<close>: \<^verbatim>\<open>getLiteralText()\<close> is \<open>s\<close>;
  \<^item> \<open>ArrowFunction ps body\<close>: the parameters and the body;
  \<^item> \<open>CallExpression f args\<close>: \<^verbatim>\<open>getExpression()\<close> is \<open>f\<close>, \<^verbatim>\<open>getArguments()\<close> is
    \<open>args\<close>;
  \<^item> \<open>ImportKeyword\<close>: the callee of a dynamic import, whose text is \<^verbatim>\<open>import\<close>;
  \<^item> \<open>OtherNode text cs\<close>: a node of any other kind, with its text and its children.
  Children are in source order.
\<close>

datatype node =
    SourceFile "node list"
  | ExportAssignment bool node
  | VariableDeclaration node "node option"
  | ArrayLiteralExpression "node list"
  | AsExpression node node
  | Identifier string "node option"
  | ObjectLiteralExpression "node list"
  | PropertyAssignment string node node
  | NamedMember string "node list"
  | StringLiteral string
  | ArrowFunction "node list" node
  | CallExpression node "node list"
  | ImportKeyword
  | OtherNode string "node list"

datatype SyntaxKind =
    SourceFileKind | ExportAssignmentKind | VariableDeclarationKind
  | ArrayLiteralExpressionKind | AsExpressionKind | IdentifierKind
  | ObjectLiteralExpressionKind | PropertyAssignmentKind | NamedMemberKind
  | StringLiteralKind | ArrowFunctionKind | CallExpressionKind | ImportKeywordKind
  | OtherKind

fun getKind :: "node \<Rightarrow> SyntaxKind" where
  "getKind (SourceFile _) = SourceFileKind"
| "getKind (ExportAssignment _ _) = ExportAssignmentKind"
| "getKind (VariableDeclaration _ _) = VariableDeclarationKind"
| "getKind (ArrayLiteralExpression _) = ArrayLiteralExpressionKind"
| "getKind (AsExpression _ _) = AsExpressionKind"
| "getKind (Identifier _ _) = IdentifierKind"
| "getKind (ObjectLiteralExpression _) = ObjectLiteralExpressionKind"
| "getKind (PropertyAssignment _ _ _) = PropertyAssignmentKind"
| "getKind (NamedMember _ _) = NamedMemberKind"
| "getKind (StringLiteral _) = StringLiteralKind"
| "getKind (ArrowFunction _ _) = ArrowFunctionKind"
| "getKind (CallExpression _ _) = CallExpressionKind"
| "getKind ImportKeyword = ImportKeywordKind"
| "getKind (OtherNode _ _) = OtherKind"

text \<open>A node followed by its descendants, depth first, in source order.\<close>

fun withDescendants :: "node \<Rightarrow> node list" where
  "withDescendants (SourceFile cs) = SourceFile cs # concat (map withDescendants cs)"
| "withDescendants (ExportAssignment q e) = ExportAssignment q e # withDescendants e"
| "withDescendants (VariableDeclaration n i) =
     VariableDeclaration n i # withDescendants n @
       (case i of None \<Rightarrow> [] | Some e \<Rightarrow> withDescendants e)"
| "withDescendants (ArrayLiteralExpression es) =
     ArrayLiteralExpression es # concat (map withDescendants es)"
| "withDescendants (AsExpression e t) = AsExpression e t # withDescendants e @ withDescendants t"
| "withDescendants (Identifier t d) = [Identifier t d]"
| "withDescendants (ObjectLiteralExpression ps) =
     ObjectLiteralExpression ps # concat (map withDescendants ps)"
| "withDescendants (PropertyAssignment n k v) =
     PropertyAssignment n k v # withDescendants k @ withDescendants v"
| "withDescendants (NamedMember n cs) = NamedMember n cs # concat (map withDescendants cs)"
| "withDescendants (StringLiteral s) = [StringLiteral s]"
| "withDescendants (ArrowFunction ps b) =
     ArrowFunction ps b # concat (map withDescendants ps) @ withDescendants b"
| "withDescendants (CallExpression f as) =
     CallExpression f as # withDescendants f @ concat (map withDescendants as)"
| "withDescendants ImportKeyword = [ImportKeyword]"
| "withDescendants (OtherNode t cs) = OtherNode t cs # concat (map withDescendants cs)"

definition getDescendants :: "node \<Rightarrow> node list" where
  "getDescendants n = tl (withDescendants n)"

definition getDescendantsOfKind :: "node \<Rightarrow> SyntaxKind \<Rightarrow> node list" where
  "getDescendantsOfKind n k = filter (\<lambda>d. getKind d = k) (getDescendants n)"

definition getFirstDescendantByKind :: "node \<Rightarrow> SyntaxKind \<Rightarrow> node option" where
  "getFirstDescendantByKind n k = find (\<lambda>d. getKind d = k) (getDescendants n)"

text \<open>
  \<^verbatim>\<open>obj.getProperty(name)\<close>: the first member that has a name and whose name is the
  given text.
\<close>

fun getName :: "node \<Rightarrow> string option" where
  "getName (PropertyAssignment n _ _) = Some n"
| "getName (NamedMember n _) = Some n"
| "getName _ = None"

definition getProperty :: "node list \<Rightarrow> string \<Rightarrow> node option" where
  "getProperty ps n = find (\<lambda>p. getName p = Some n) ps"

text \<open>
  \<^verbatim>\<open>call.getExpression().getText() === "import"\<close>. The text of an identifier or of a node
  of another kind is stored in the node; the text of the import keyword is
  \<^verbatim>\<open>import\<close>; the text of a node of the remaining kinds (a call, an array or object
  literal, a string literal, an arrow function, an assertion) is never these six letters.
\<close>

fun calleeIsImport :: "node \<Rightarrow> bool" where
  "calleeIsImport (CallExpression f _) =
     (case f of
        ImportKeyword \<Rightarrow> True
      | Identifier t _ \<Rightarrow> t = ''import''
      | OtherNode t _ \<Rightarrow> t = ''import''
      | _ \<Rightarrow> False)"
| "calleeIsImport _ = False"

section \<open>The route extractor\<close>

record RouteItem =
  name :: string
  relativePath :: string

text \<open>
  Lines 35 to 65 of \<^verbatim>\<open>inject.ts\<close>: the elements of the exported array, through one of
  the three shapes, or nothing.
\<close>

fun arrayOrAsserted :: "node \<Rightarrow> node list option" where
  "arrayOrAsserted (ArrayLiteralExpression es) = Some es"
| "arrayOrAsserted (AsExpression (ArrayLiteralExpression es) _) = Some es"
| "arrayOrAsserted _ = None"

fun resolveRouteArray :: "node \<Rightarrow> node list option" where
  "resolveRouteArray (ArrayLiteralExpression es) = Some es"
| "resolveRouteArray (AsExpression inner _) =
     (case inner of ArrayLiteralExpression es \<Rightarrow> Some es | _ \<Rightarrow> None)"
| "resolveRouteArray (Identifier _ decl) =
     (case decl of
        Some (VariableDeclaration _ (Some init)) \<Rightarrow> arrayOrAsserted init
      | _ \<Rightarrow> None)"
| "resolveRouteArray _ = None"

text \<open>
  The body of the loop of lines 81 to 114 for one element of the array: the route it
  pushes, or nothing when it continues. An empty name is falsy, so it is skipped.
\<close>

definition extractRoute :: "node \<Rightarrow> RouteItem option" where
  "extractRoute route =
     (case route of
        ObjectLiteralExpression props \<Rightarrow>
          (case (getProperty props ''name'', getProperty props ''component'') of
             (Some nameProp, Some compProp) \<Rightarrow>
               (case (getFirstDescendantByKind nameProp StringLiteralKind,
                      getFirstDescendantByKind compProp ArrowFunctionKind) of
                  (Some (StringLiteral nameText), Some arrowFn) \<Rightarrow>
                    if nameText = [] then None
                    else
                      (case find calleeIsImport (getDescendantsOfKind arrowFn CallExpressionKind) of
                         Some (CallExpression _ (StringLiteral importPath # _)) \<Rightarrow>
                           if startsWith importPath ''@/views/''
                           then Some \<lparr>name = nameText,
                                      relativePath = replace_str importPath ''@/views/'' []\<rparr>
                           else None
                       | _ \<Rightarrow> None)
                | _ \<Rightarrow> None)
           | _ \<Rightarrow> None)
      | _ \<Rightarrow> None)"

definition isObjectLiteral :: "node \<Rightarrow> bool" where
  "isObjectLiteral e \<longleftrightarrow> getKind e = ObjectLiteralExpressionKind"

definition matchedRoutesOf :: "node list \<Rightarrow> RouteItem list" where
  "matchedRoutesOf elements = List.map_filter extractRoute (filter isObjectLiteral elements)"

section \<open>The component patcher\<close>

text \<open>
  What the run takes from outside the tool:
  \<^item> \<open>path_join\<close> is \<^verbatim>\<open>path.join\<close> of Node.js;
  \<^item> \<open>importEnds src\<close> is, for the source file ts-morph creates from the text \<open>src\<close>,
    \<^verbatim>\<open>getEnd()\<close> of each declaration of \<^verbatim>\<open>getImportDeclarations()\<close>, in order.
  The file system is a map from paths to file contents: \<^verbatim>\<open>existsSync\<close> is definedness,
  \<^verbatim>\<open>readFileSync\<close> the lookup, \<^verbatim>\<open>writeFileSync\<close> the update. Directories are not
  modelled. The console is the list of the messages printed so far.
\<close>

record host =
  path_join :: "string \<Rightarrow> string \<Rightarrow> string"
  importEnds :: "string \<Rightarrow> nat list"

record config =
  viewsDir :: string
  excludeDirs :: "string list"

type_synonym files = "string \<rightharpoonup> string"

datatype message =
    ErrorNoExportDefault
  | ErrorNotAnArray
  | WarnNoMatchedRoutes
  | LogIgnored string
  | WarnFileNotFound string
  | LogProcessed string
  | LogAddedScriptSetup string


definition defineLine :: "string \<Rightarrow> string" where
  "defineLine nm = ''defineOptions({ name: \"'' @ nm @ ''\" });''"

text \<open>Lines 160 to 176: the new content of the script block.\<close>

definition injectIntoScript :: "(string \<Rightarrow> nat list) \<Rightarrow> string \<Rightarrow> string \<Rightarrow> string" where
  "injectIntoScript ends nm scriptContent =
     (if js_includes scriptContent ''defineOptions''
      then replace_defineOptions scriptContent (defineLine nm)
      else
        (let imports = ends scriptContent;
             insertPos = (if length imports > 0 then last imports + 1 else 0)
         in if insertPos > 0
            then take insertPos scriptContent @ ''\<newline>'' @ defineLine nm @ ''\<newline>'' @
                 drop insertPos scriptContent
            else defineLine nm @ ''\<newline>'' @ scriptContent))"

text \<open>Lines 147 to 190 without the file system: the new content of the file.\<close>

definition patchContent :: "(string \<Rightarrow> nat list) \<Rightarrow> string \<Rightarrow> string \<Rightarrow> string" where
  "patchContent ends nm content =
     (case match_script content of
        Some (pre, attrs, scriptContent, post) \<Rightarrow>
          (let oldBlock = ''<script'' @ attrs @ ''>'' @ scriptContent @ ''</script>'';
               newScript = ''<script'' @ attrs @ ''>\<newline>'' @
                           trim (injectIntoScript ends nm scriptContent) @ ''\<newline></script>''
           in replace_str content oldBlock newScript)
      | None \<Rightarrow> ''<script setup>\<newline>'' @ defineLine nm @ ''\<newline></script>\<newline>'' @ content)"

definition isExcluded :: "string list \<Rightarrow> string \<Rightarrow> bool" where
  "isExcluded dirs rel \<longleftrightarrow> list_ex (\<lambda>dir. dir \<in> set (split_on CHR ''/'' rel)) dirs"

definition vueFilePath :: "host \<Rightarrow> config \<Rightarrow> string \<Rightarrow> string" where
  "vueFilePath h cfg rel =
     path_join h (viewsDir cfg) (if endsWith rel ''.vue'' then rel else rel @ ''.vue'')"

text \<open>The callback of \<^verbatim>\<open>matchedRoutes.forEach\<close>, lines 125 to 191.\<close>

definition patchRoute :: "host \<Rightarrow> config \<Rightarrow> RouteItem \<Rightarrow> files \<times> message list \<Rightarrow> files \<times> message list" where
  "patchRoute h cfg r st =
     (let (fs, out) = st in
      if isExcluded (excludeDirs cfg) (relativePath r)
      then (fs, out @ [LogIgnored (relativePath r)])
      else
        (let p = vueFilePath h cfg (relativePath r) in
         case fs p of
           None \<Rightarrow> (fs, out @ [WarnFileNotFound p])
         | Some content \<Rightarrow>
             (fs(p \<mapsto> patchContent (importEnds h) (name r) content),
              out @ [if match_script content = None then LogAddedScriptSetup p else LogProcessed p])))"

text \<open>
  \<^verbatim>\<open>injectDefineOptions\<close> on the parsed route file: the files and the console after the
  run.
\<close>

definition injectDefineOptions :: "host \<Rightarrow> config \<Rightarrow> node \<Rightarrow> files \<Rightarrow> files \<times> message list" where
  "injectDefineOptions h cfg sourceFile fs =
     (case getFirstDescendantByKind sourceFile ExportAssignmentKind of
        Some (ExportAssignment _ exportExpr) \<Rightarrow>
          (case resolveRouteArray exportExpr of
             None \<Rightarrow> (fs, [ErrorNotAnArray])
           | Some elements \<Rightarrow>
               (let matchedRoutes = matchedRoutesOf elements in
                if length matchedRoutes = 0 then (fs, [WarnNoMatchedRoutes])
                else fold (patchRoute h cfg) matchedRoutes (fs, [])))
      | _ \<Rightarrow> (fs, [ErrorNoExportDefault]))"

section \<open>The shapes the specification names\<close>

text \<open>
  The descriptor \<^verbatim>\<open>{name: "nm", component: () => import("path")}\<close> as the parser
  returns it.
\<close>

definition descriptor :: "string \<Rightarrow> string \<Rightarrow> node" where
  "descriptor nm path =
     ObjectLiteralExpression
       [PropertyAssignment ''name'' (Identifier ''name'' None) (StringLiteral nm),
        PropertyAssignment ''component'' (Identifier ''component'' None)
          (ArrowFunction [] (CallExpression ImportKeyword [StringLiteral path]))]"



text \<open>
  Following the words of the specification, not the code. An arrow function dynamically
  imports the path \<open>p\<close> when the first call of \<^verbatim>\<open>import\<close> inside it, wherever it stands (as
  the body, behind a \<^verbatim>\<open>return\<close>, deeper), has the string literal \<open>p\<close> as its first
  argument.
\<close>

definition importedPath :: "node \<Rightarrow> string option" where
  "importedPath arrowFn =
     (case find calleeIsImport (getDescendantsOfKind arrowFn CallExpressionKind) of
        Some (CallExpression _ (StringLiteral p # _)) \<Rightarrow> Some p
      | _ \<Rightarrow> None)"











text \<open>
  Lines 24 and 35: the expression of the first export assignment of the file, whichever of
  the two forms it has.
\<close>

definition exportExpr :: "node \<Rightarrow> node option" where
  "exportExpr sourceFile =
     (case getFirstDescendantByKind sourceFile ExportAssignmentKind of
        Some (ExportAssignment _ e) \<Rightarrow> Some e
      | _ \<Rightarrow> None)"

text \<open>
  Following the words of the specification: the expression of the default export, which
  is the first export assignment of the form \<^verbatim>\<open>export default e\<close>, and the three ways it
  resolves to an array literal.
\<close>

definition isDefaultExport :: "node \<Rightarrow> bool" where
  "isDefaultExport d \<longleftrightarrow> (case d of ExportAssignment eq _ \<Rightarrow> \<not> eq | _ \<Rightarrow> False)"

definition exportExpression :: "node \<Rightarrow> node option" where
  "exportExpression sourceFile =
     (case find isDefaultExport (getDescendants sourceFile) of
        Some (ExportAssignment _ e) \<Rightarrow> Some e
      | _ \<Rightarrow> None)"

definition isArrayLiteral :: "node \<Rightarrow> bool" where
  "isArrayLiteral e \<longleftrightarrow> getKind e = ArrayLiteralExpressionKind"

definition isAssertedArray :: "node \<Rightarrow> bool" where
  "isAssertedArray e \<longleftrightarrow> (case e of AsExpression inner _ \<Rightarrow> isArrayLiteral inner | _ \<Rightarrow> False)"

definition resolvesToArray :: "node \<Rightarrow> bool" where
  "resolvesToArray e \<longleftrightarrow>
     isArrayLiteral e \<or> isAssertedArray e \<or>
     (case e of
        Identifier _ (Some (VariableDeclaration _ (Some init))) \<Rightarrow>
          isArrayLiteral init \<or> isAssertedArray init
      | _ \<Rightarrow> False)"










section \<open>The scenario of the specification\<close>

text \<open>
  The route file exports the array of \<^verbatim>\<open>UserList\<close> and \<^verbatim>\<open>Bad\<close>; the views directory
  holds \<^verbatim>\<open>user/list.vue\<close>. For the scenario's script the parser reports one import
  declaration, \<^verbatim>\<open>import {ref} from 'x';\<close>, which starts at offset 1 and ends at offset
  23, after the semicolon. Joining the directory and a relative path that has no empty,
  \<^verbatim>\<open>.\<close> or \<^verbatim>\<open>..\<close> segment puts a slash between them.
\<close>

definition scenario_bad :: node where
  "scenario_bad =
     ObjectLiteralExpression
       [PropertyAssignment ''name'' (Identifier ''name'' None) (StringLiteral ''Bad''),
        PropertyAssignment ''meta'' (Identifier ''meta'' None) (ObjectLiteralExpression [])]"

definition scenario_routeFile :: node where
  "scenario_routeFile =
     SourceFile
       [ExportAssignment False
          (ArrayLiteralExpression
             [descriptor ''UserList'' ''@/views/user/list.vue'', scenario_bad])]"

definition scenario_script :: string where
  "scenario_script = ''\<newline>import {ref} from 'x';\<newline>''"

definition scenario_vue :: string where
  "scenario_vue = ''<script>'' @ scenario_script @ ''</script>''"

definition scenario_host :: host where
  "scenario_host =
     \<lparr>path_join = (\<lambda>dir rel. dir @ ''/'' @ rel),
      importEnds = (\<lambda>src. if src = scenario_script then [23] else [])\<rparr>"

definition scenario_config :: config where
  "scenario_config = \<lparr>viewsDir = ''/app/src/views'', excludeDirs = []\<rparr>"

definition scenario_files :: files where
  "scenario_files = [''/app/src/views/user/list.vue'' \<mapsto> scenario_vue]"

section \<open>Facts about the string primitives\<close>

lemma splitFirst_SomeD: "splitFirst pat s = Some (a, b) \<Longrightarrow> s = a @ pat @ b"
proof (induction s arbitrary: a)
  case Nil
  then show ?case by (simp split: if_splits)
next
  case (Cons c cs)
  show ?case
  proof (cases "prefix pat (c # cs)")
    case True
    with Cons.prems have "a = []" "b = drop (length pat) (c # cs)" by simp_all
    moreover from True obtain zs where "c # cs = pat @ zs" by (auto simp: prefix_def)
    ultimately show ?thesis by simp
  next
    case False
    with Cons.prems obtain a' where "splitFirst pat cs = Some (a', b)" "a = c # a'"
      by (auto split: prod.splits)
    with Cons.IH show ?thesis by simp
  qed
qed

lemma splitFirst_includes: "js_includes s pat \<longleftrightarrow> sublist pat s"
proof (induction s)
  case Nil
  then show ?case by (simp add: js_includes_def)
next
  case (Cons c cs)
  then show ?case
    by (auto simp: js_includes_def sublist_Cons_right)
qed

lemma splitFirst_None_iff: "splitFirst pat s = None \<longleftrightarrow> \<not> sublist pat s"
  using splitFirst_includes [of s pat] by (auto simp: js_includes_def)

text \<open>No occurrence starts before the cut.\<close>
lemma splitFirst_leftmost:
  "splitFirst pat s = Some (a, b) \<Longrightarrow> a = a1 @ a2 \<Longrightarrow> a2 \<noteq> [] \<Longrightarrow> \<not> prefix pat (a2 @ pat @ b)"
proof (induction s arbitrary: a a1)
  case Nil
  then show ?case by (simp split: if_splits)
next
  case (Cons c cs)
  show ?case
  proof (cases "prefix pat (c # cs)")
    case True
    with Cons.prems show ?thesis by simp
  next
    case False
    with Cons.prems obtain a' where a': "splitFirst pat cs = Some (a', b)" "a = c # a'"
      by (auto split: prod.splits)
    show ?thesis
    proof (cases a1)
      case Nil
      with Cons.prems a' have "a2 @ pat @ b = c # cs"
        using splitFirst_SomeD [OF a'(1)] by simp
      with False show ?thesis by simp
    next
      case (Cons x xs)
      with Cons.prems a' have "a' = xs @ a2" by simp
      from Cons.IH [OF a'(1) this Cons.prems(3)] show ?thesis .
    qed
  qed
qed

lemma splitFirst_prefix: "splitFirst pat (pat @ b) = Some ([], b)"
proof (cases "pat @ b")
  case Nil
  then show ?thesis by simp
next
  case (Cons c cs)
  have "splitFirst pat (c # cs) = Some ([], drop (length pat) (c # cs))"
    using Cons by (metis prefixI splitFirst.simps(2))
  then show ?thesis using Cons by (metis append_eq_conv_conj)
qed

lemma splitFirst_eqI:
  assumes "s = a @ pat @ b"
    and "\<And>a1 a2. a = a1 @ a2 \<Longrightarrow> a2 \<noteq> [] \<Longrightarrow> \<not> prefix pat (a2 @ pat @ b)"
  shows "splitFirst pat s = Some (a, b)"
  using assms
proof (induction a arbitrary: s)
  case Nil
  then show ?case by (simp add: splitFirst_prefix)
next
  case (Cons c a)
  have np: "\<not> prefix pat (c # a @ pat @ b)"
    using Cons.prems(2) [of "[]" "c # a"] by simp
  have "splitFirst pat (a @ pat @ b) = Some (a, b)"
  proof (rule Cons.IH [OF refl])
    fix a1 a2 assume "a = a1 @ a2" "a2 \<noteq> []"
    then show "\<not> prefix pat (a2 @ pat @ b)"
      using Cons.prems(2) [of "c # a1" a2] by simp
  qed
  with np Cons.prems(1) show ?case by simp
qed

text \<open>A pattern whose first character occurs nowhere else in it cannot overlap itself.\<close>
lemma prefix_no_overlap:
  assumes "h \<notin> set t" "a2 \<noteq> []" "prefix (h # t) (a2 @ (h # t) @ b)"
  shows "prefix (h # t) a2"
proof (cases "length (h # t) \<le> length a2")
  case True
  with assms(3) show ?thesis
    by (metis prefix_append prefix_length_prefix prefix_order.order_refl prefix_def append.assoc)
next
  case False
  then have len: "length a2 < length (h # t)" by simp
  from assms(3) have "(a2 @ (h # t) @ b) ! length a2 = (h # t) ! length a2"
    using len by (metis prefix_def nth_append)
  then have "h = (h # t) ! length a2" by (simp add: nth_append)
  moreover from assms(2) len obtain n where "length a2 = Suc n" "n < length t"
    by (cases a2) auto
  ultimately have "h \<in> set t" by (metis nth_Cons_Suc nth_mem)
  with assms(1) show ?thesis by simp
qed


lemma splitFirst_char_iff:
  "splitFirst [c] s = Some (a, b) \<longleftrightarrow> s = a @ c # b \<and> c \<notin> set a"
proof (induction s arbitrary: a)
  case Nil
  then show ?case by simp
next
  case (Cons x xs)
  show ?case
  proof (cases "x = c")
    case True
    then show ?thesis by (cases a) auto
  next
    case False
    then show ?thesis using Cons.IH by (cases a) (auto split: prod.splits)
  qed
qed

section \<open>Facts about the script pattern\<close>

lemma match_script_at_tail:
  "match_script_at s = (case lit ''<script'' s of None \<Rightarrow> None | Some r \<Rightarrow> script_tail r)"
  by (simp add: match_script_at_def split: option.splits)

lemma script_tail_Some_iff:
  "script_tail r \<noteq> None \<longleftrightarrow> (\<exists>a b. r = a @ ''>'' @ b \<and> sublist ''</script>'' b)"
proof
  assume "script_tail r \<noteq> None"
  then obtain attrs r' where 1: "splitFirst ''>'' r = Some (attrs, r')"
    and 2: "splitFirst ''</script>'' r' \<noteq> None"
    by (auto simp: script_tail_def split: option.splits Option.bind_splits)
  from splitFirst_SomeD [OF 1] 2 show "\<exists>a b. r = a @ ''>'' @ b \<and> sublist ''</script>'' b"
    by (auto simp: splitFirst_None_iff)
next
  assume "\<exists>a b. r = a @ ''>'' @ b \<and> sublist ''</script>'' b"
  then obtain a b where r: "r = a @ ''>'' @ b" and b: "sublist ''</script>'' b" by blast
  then have "sublist ''>'' r" by (metis sublist_appendI)
  then obtain attrs r' where 1: "splitFirst ''>'' r = Some (attrs, r')"
    using splitFirst_None_iff [of "''>''" r] by auto
  from 1 have "r = attrs @ CHR ''>'' # r'" "CHR ''>'' \<notin> set attrs"
    by (simp_all add: splitFirst_char_iff)
  with r have "suffix b r'"
    by (auto simp: append_eq_append_conv2 append_eq_Cons_conv suffix_def Cons_eq_append_conv)
  with b have "sublist ''</script>'' r'"
    by (meson sublist_order.order_trans suffix_imp_sublist)
  then have "splitFirst ''</script>'' r' \<noteq> None" by (simp add: splitFirst_None_iff)
  with 1 show "script_tail r \<noteq> None"
    by (auto simp: script_tail_def)
qed

lemma script_tail_suffix:
  assumes "script_tail r' \<noteq> None" "suffix r' r"
  shows "script_tail r \<noteq> None"
proof -
  from assms(1) obtain a b where "r' = a @ ''>'' @ b" "sublist ''</script>'' b"
    unfolding script_tail_Some_iff by blast
  moreover from assms(2) obtain u where "r = u @ r'" by (auto simp: suffix_def)
  ultimately have "r = (u @ a) @ ''>'' @ b \<and> sublist ''</script>'' b" by simp
  then show ?thesis unfolding script_tail_Some_iff by blast
qed

text \<open>The leftmost match starts at the first opening tag.\<close>

lemma match_script_eq:
  "match_script s =
     (case splitFirst ''<script'' s of
        None \<Rightarrow> None
      | Some (pre, r) \<Rightarrow> map_option (\<lambda>(attrs, sc, post). (pre, attrs, sc, post)) (script_tail r))"
proof (induction s)
  case Nil
  then show ?case by simp
next
  case (Cons c cs)
  show ?case
  proof (cases "prefix ''<script'' (c # cs)")
    case True
    then obtain r where r: "c # cs = ''<script'' @ r" by (auto simp: prefix_def)
    have lit: "lit ''<script'' (c # cs) = Some r" unfolding r by (simp add: lit_def)
    have sf: "splitFirst ''<script'' (c # cs) = Some ([], r)"
      unfolding r by (rule splitFirst_prefix)
    show ?thesis
    proof (cases "script_tail r")
      case (Some t)
      then show ?thesis using sf lit
        by (cases t) (simp add: match_script_at_tail del: splitFirst.simps)
    next
      case None
      have "match_script cs = None"
      proof (rule ccontr)
        assume "match_script cs \<noteq> None"
        then obtain pre' r' where 1: "splitFirst ''<script'' cs = Some (pre', r')"
          and 2: "script_tail r' \<noteq> None"
          unfolding Cons.IH by (auto split: option.splits)
        from splitFirst_SomeD [OF 1] have cs: "cs = pre' @ ''<script'' @ r'" .
        from r have cs': "cs = ''script'' @ r" by simp
        have "suffix r' cs" unfolding cs by (simp add: suffix_def)
        moreover have "suffix r cs" unfolding cs' by (simp add: suffix_def)
        moreover have "length r' \<le> length r"
          using arg_cong [OF cs, of length] arg_cong [OF cs', of length] by simp
        ultimately have "suffix r' r" by (rule suffix_length_suffix)
        from script_tail_suffix [OF 2 this] None show False by simp
      qed
      then show ?thesis using sf lit None
        by (simp add: match_script_at_tail del: splitFirst.simps)
    qed
  next
    case False
    then have "lit ''<script'' (c # cs) = None" by (simp only: lit_def if_False)
    then have "match_script_at (c # cs) = None"
      by (simp only: match_script_at_tail option.case)
    then have ms: "match_script (c # cs) =
        map_option (\<lambda>(pre, attrs, sc, post). (c # pre, attrs, sc, post)) (match_script cs)"
      by (simp only: match_script.simps option.case)
    have sf: "splitFirst ''<script'' (c # cs) =
        map_option (\<lambda>(b, a). (c # b, a)) (splitFirst ''<script'' cs)"
      using False by (simp only: splitFirst.simps if_False)
    show ?thesis
    proof (cases "splitFirst ''<script'' cs")
      case None
      then show ?thesis unfolding ms sf Cons.IH by simp
    next
      case (Some pr)
      obtain pre' r' where pr: "pr = (pre', r')" by (cases pr)
      show ?thesis unfolding ms sf Cons.IH Some pr
        by (cases "script_tail r'") auto
    qed
  qed
qed

lemma splitFirst_not_before:
  assumes "splitFirst pat s = Some (a, b)" "pat \<noteq> []"
  shows "\<not> sublist pat a"
proof
  assume "sublist pat a"
  then obtain u v where a: "a = u @ pat @ v" by (auto simp: sublist_def)
  have "\<not> prefix pat ((pat @ v) @ pat @ b)"
    by (rule splitFirst_leftmost [OF assms(1), of u]) (simp_all add: a assms(2))
  then show False by simp
qed

lemma script_tail_SomeD:
  assumes "script_tail r = Some (attrs, sc, post)"
  shows "r = attrs @ ''>'' @ sc @ ''</script>'' @ post"
    and "CHR ''>'' \<notin> set attrs" and "\<not> sublist ''</script>'' sc"
proof -
  from assms obtain r' where 1: "splitFirst ''>'' r = Some (attrs, r')"
    and 2: "splitFirst ''</script>'' r' = Some (sc, post)"
    by (auto simp: script_tail_def split: Option.bind_splits)
  from 1 have r: "r = attrs @ CHR ''>'' # r'" and "CHR ''>'' \<notin> set attrs"
    by (simp_all add: splitFirst_char_iff)
  then show "CHR ''>'' \<notin> set attrs" by simp
  from splitFirst_SomeD [OF 2] r show "r = attrs @ ''>'' @ sc @ ''</script>'' @ post" by simp
  from splitFirst_not_before [OF 2] show "\<not> sublist ''</script>'' sc" by simp
qed


lemma match_script_SomeD:
  assumes "match_script s = Some (pre, attrs, sc, post)"
  shows "s = pre @ ''<script'' @ attrs @ ''>'' @ sc @ ''</script>'' @ post"
    and "\<not> sublist ''<script'' pre"
    and "CHR ''>'' \<notin> set attrs" and "\<not> sublist ''</script>'' sc"
proof -
  from assms obtain r where 1: "splitFirst ''<script'' s = Some (pre, r)"
    and 2: "script_tail r = Some (attrs, sc, post)"
    unfolding match_script_eq by (auto split: option.splits)
  from script_tail_SomeD [OF 2] splitFirst_SomeD [OF 1]
  show "s = pre @ ''<script'' @ attrs @ ''>'' @ sc @ ''</script>'' @ post"
    and "CHR ''>'' \<notin> set attrs" and "\<not> sublist ''</script>'' sc"
    by simp_all
  from splitFirst_not_before [OF 1] show "\<not> sublist ''<script'' pre" by simp
qed


lemma match_script_None:
  assumes "\<not> sublist ''<script'' s"
  shows "match_script s = None"
  using assms unfolding match_script_eq by (simp add: splitFirst_None_iff [symmetric])

text \<open>The matched block does not occur before the place where the pattern found it.\<close>

lemma splitFirst_oldBlock:
  assumes "match_script s = Some (pre, attrs, sc, post)"
  shows "splitFirst (''<script'' @ attrs @ ''>'' @ sc @ ''</script>'') s = Some (pre, post)"
proof (rule splitFirst_eqI)
  show "s = pre @ (''<script'' @ attrs @ ''>'' @ sc @ ''</script>'') @ post"
    using match_script_SomeD(1) [OF assms] by simp
next
  fix a1 a2 assume a: "pre = a1 @ a2" "a2 \<noteq> []"
  let ?blk = "''<script'' @ attrs @ ''>'' @ sc @ ''</script>''"
  show "\<not> prefix ?blk (a2 @ ?blk @ post)"
  proof
    assume "prefix ?blk (a2 @ ?blk @ post)"
    then have "prefix ''<script'' (a2 @ ''<script'' @ (attrs @ ''>'' @ sc @ ''</script>'' @ post))"
      by (metis append.assoc append_prefixD)
    then have "prefix ''<script'' a2"
      using prefix_no_overlap [of "CHR ''<''" "''script''" a2] a(2) by simp
    then have "sublist ''<script'' pre"
      unfolding a(1) by (metis prefix_imp_sublist sublist_append)
    with match_script_SomeD(2) [OF assms] show False by simp
  qed
qed


lemma patchContent_Some:
  assumes "match_script content = Some (pre, attrs, sc, post)"
  shows "patchContent ends nm content =
    pre @ getSubstitution (''<script'' @ attrs @ ''>'' @ sc @ ''</script>'') pre post
            (''<script'' @ attrs @ ''>\<newline>'' @ trim (injectIntoScript ends nm sc) @ ''\<newline></script>'') @ post"
  unfolding patchContent_def assms replace_str_def
  using splitFirst_oldBlock [OF assms] by (simp add: Let_def del: splitFirst.simps)

lemma patchContent_None:
  assumes "match_script content = None"
  shows "patchContent ends nm content =
    ''<script setup>\<newline>'' @ defineLine nm @ ''\<newline></script>\<newline>'' @ content"
  unfolding patchContent_def assms by simp

section \<open>The scenario\<close>

lemma scenario_matchedRoutes:
  "matchedRoutesOf [descriptor ''UserList'' ''@/views/user/list.vue'', scenario_bad] =
     [\<lparr>name = ''UserList'', relativePath = ''user/list.vue''\<rparr>]"
  by code_simp

lemma scenario_export:
  "getFirstDescendantByKind scenario_routeFile ExportAssignmentKind =
     Some (ExportAssignment False (ArrayLiteralExpression
        [descriptor ''UserList'' ''@/views/user/list.vue'', scenario_bad]))"
  by (simp add: scenario_routeFile_def getFirstDescendantByKind_def getDescendants_def)

lemma scenario_match_script:
  "match_script scenario_vue = Some ([], [], scenario_script, [])"
  by code_simp

lemma scenario_no_marker: "\<not> js_includes scenario_script ''defineOptions''"
  by code_simp

lemma scenario_patchContent:
  assumes "ends scenario_script = [23]"
  shows "patchContent ends ''UserList'' scenario_vue =
    ''<script>\<newline>import {ref} from 'x';\<newline>\<newline>defineOptions({ name: \"UserList\" });\<newline></script>''"
proof -
  have "injectIntoScript ends ''UserList'' scenario_script =
      ''\<newline>import {ref} from 'x';\<newline>\<newline>defineOptions({ name: \"UserList\" });\<newline>''"
    unfolding injectIntoScript_def using scenario_no_marker assms
    by (simp add: Let_def defineLine_def scenario_script_def)
  then show ?thesis
    unfolding patchContent_Some [OF scenario_match_script]
    by (simp add: trim_def is_space_def)
qed

lemma scenario_not_excluded: "\<not> isExcluded [] rel"
  by (simp add: isExcluded_def)

lemma scenario_vueFilePath:
  "vueFilePath h cfg ''user/list.vue'' = path_join h (viewsDir cfg) ''user/list.vue''"
  by (simp add: vueFilePath_def endsWith_def suffix_def)

lemma scenario_run:
  assumes "importEnds h scenario_script = [23]"
    and "excludeDirs cfg = []"
    and "fs (path_join h (viewsDir cfg) ''user/list.vue'') = Some scenario_vue"
  shows "injectDefineOptions h cfg scenario_routeFile fs =
     (fs(path_join h (viewsDir cfg) ''user/list.vue'' \<mapsto>
        ''<script>\<newline>import {ref} from 'x';\<newline>\<newline>defineOptions({ name: \"UserList\" });\<newline></script>''),
      [LogProcessed (path_join h (viewsDir cfg) ''user/list.vue'')])"
  unfolding injectDefineOptions_def scenario_export
  using assms scenario_match_script
  by (simp add: scenario_matchedRoutes patchRoute_def scenario_not_excluded scenario_vueFilePath
      scenario_patchContent Let_def)

text \<open>
  Claim C1, as the code has it. In the scenario the run finds the export, extracts exactly
  one route (\<^verbatim>\<open>UserList\<close>, \<^verbatim>\<open>user/list.vue\<close>) and drops \<^verbatim>\<open>Bad\<close> without a message, and
  rewrites the file. The insertion point is one character after the end of the import
  declaration, which is after the line break that follows it, and the inserted text starts
  with a line break of its own: the file ends up with an empty line between the import and
  the injected statement.
\<close>

theorem scenario_blank_line:
  assumes "importEnds h scenario_script = [23]"
    and "excludeDirs cfg = []"
    and "fs (path_join h (viewsDir cfg) ''user/list.vue'') = Some scenario_vue"
  shows "exportExpression scenario_routeFile =
       Some (ArrayLiteralExpression [descriptor ''UserList'' ''@/views/user/list.vue'', scenario_bad])
     \<and> matchedRoutesOf [descriptor ''UserList'' ''@/views/user/list.vue'', scenario_bad] =
       [\<lparr>name = ''UserList'', relativePath = ''user/list.vue''\<rparr>]
     \<and> injectDefineOptions h cfg scenario_routeFile fs =
       (fs(path_join h (viewsDir cfg) ''user/list.vue'' \<mapsto>
          ''<script>\<newline>import {ref} from 'x';\<newline>\<newline>defineOptions({ name: \"UserList\" });\<newline></script>''),
        [LogProcessed (path_join h (viewsDir cfg) ''user/list.vue'')])"
  using scenario_run [of h cfg fs] assms scenario_matchedRoutes
  by (simp add: exportExpression_def isDefaultExport_def scenario_routeFile_def getDescendants_def)

lemma scenario_host_facts:
  "importEnds scenario_host scenario_script = [23]"
  "excludeDirs scenario_config = []"
  "path_join scenario_host (viewsDir scenario_config) ''user/list.vue'' = ''/app/src/views/user/list.vue''"
  "scenario_files ''/app/src/views/user/list.vue'' = Some scenario_vue"
  by (simp_all add: scenario_host_def scenario_config_def scenario_files_def)

text \<open>The scenario itself satisfies the hypotheses.\<close>

theorem scenario_blank_line_witness:
  "importEnds scenario_host scenario_script = [23]
   \<and> excludeDirs scenario_config = []
   \<and> scenario_files ''/app/src/views/user/list.vue'' = Some scenario_vue
   \<and> injectDefineOptions scenario_host scenario_config scenario_routeFile scenario_files =
       (scenario_files(''/app/src/views/user/list.vue'' \<mapsto>
          ''<script>\<newline>import {ref} from 'x';\<newline>\<newline>defineOptions({ name: \"UserList\" });\<newline></script>''),
        [LogProcessed ''/app/src/views/user/list.vue''])"
  using scenario_blank_line [of scenario_host scenario_config scenario_files]
  by (simp add: scenario_host_facts)

text \<open>
  The content the claim expects, with a single line break between the import and the
  statement, is not what the run writes.
\<close>

theorem scenario_single_newline_counterexample:
  "fst (injectDefineOptions scenario_host scenario_config scenario_routeFile scenario_files)
     ''/app/src/views/user/list.vue'' \<noteq>
   Some ''<script>\<newline>import {ref} from 'x';\<newline>defineOptions({ name: \"UserList\" });\<newline></script>''"
  using scenario_run [of scenario_host scenario_config scenario_files]
  by (simp add: scenario_host_facts)

section \<open>One route against one file\<close>

lemma patchRoute_excluded:
  assumes "isExcluded (excludeDirs cfg) (relativePath r)"
  shows "patchRoute h cfg r (fs, out) = (fs, out @ [LogIgnored (relativePath r)])"
  using assms by (simp add: patchRoute_def)

lemma patchRoute_missing:
  assumes "\<not> isExcluded (excludeDirs cfg) (relativePath r)"
    and "fs (vueFilePath h cfg (relativePath r)) = None"
  shows "patchRoute h cfg r (fs, out) =
    (fs, out @ [WarnFileNotFound (vueFilePath h cfg (relativePath r))])"
  using assms by (simp add: patchRoute_def Let_def)

lemma patchRoute_written:
  assumes "\<not> isExcluded (excludeDirs cfg) (relativePath r)"
    and "fs (vueFilePath h cfg (relativePath r)) = Some content"
  shows "patchRoute h cfg r (fs, out) =
    (fs(vueFilePath h cfg (relativePath r) \<mapsto> patchContent (importEnds h) (name r) content),
     out @ [if match_script content = None
            then LogAddedScriptSetup (vueFilePath h cfg (relativePath r))
            else LogProcessed (vueFilePath h cfg (relativePath r))])"
  using assms by (simp add: patchRoute_def Let_def)

lemma isExcluded_iff:
  "isExcluded dirs rel \<longleftrightarrow> (\<exists>dir\<in>set dirs. dir \<in> set (split_on CHR ''/'' rel))"
  by (simp add: isExcluded_def list_ex_iff)

lemma split_on_nonempty: "split_on sep s \<noteq> []"
  by (induction s) (auto split: list.splits)

lemma split_on_no_sep: "seg \<in> set (split_on sep s) \<Longrightarrow> sep \<notin> set seg"
proof (induction s arbitrary: seg)
  case Nil
  then show ?case by simp
next
  case (Cons c cs)
  then show ?case
    by (cases "split_on sep cs") (auto split: if_splits)
qed

lemma split_on_join: "concat (map (\<lambda>seg. sep # seg) (split_on sep s)) = sep # s"
proof (induction s)
  case Nil
  then show ?case by simp
next
  case (Cons c cs)
  then show ?case
    by (cases "split_on sep cs") (auto split: if_splits)
qed

text \<open>
  Claim C5. A route is skipped as excluded when an excluded name is one of the segments of
  its relative path between the slashes: then no file changes and the skip is printed.
  When no excluded name is a segment the route is not skipped: its target file, when it
  exists, is written with the patched content, and a missing target file is reported.
\<close>

theorem exclusion_whole_segment:
  "((\<exists>dir\<in>set (excludeDirs cfg). dir \<in> set (split_on CHR ''/'' (relativePath r))) \<longrightarrow>
      patchRoute h cfg r (fs, out) = (fs, out @ [LogIgnored (relativePath r)]))
   \<and> (\<not> (\<exists>dir\<in>set (excludeDirs cfg). dir \<in> set (split_on CHR ''/'' (relativePath r))) \<longrightarrow>
      patchRoute h cfg r (fs, out) \<noteq> (fs, out @ [LogIgnored (relativePath r)])
      \<and> (\<forall>content. fs (vueFilePath h cfg (relativePath r)) = Some content \<longrightarrow>
            patchRoute h cfg r (fs, out) =
              (fs(vueFilePath h cfg (relativePath r) \<mapsto> patchContent (importEnds h) (name r) content),
               out @ [if match_script content = None
                      then LogAddedScriptSetup (vueFilePath h cfg (relativePath r))
                      else LogProcessed (vueFilePath h cfg (relativePath r))]))
      \<and> (fs (vueFilePath h cfg (relativePath r)) = None \<longrightarrow>
            patchRoute h cfg r (fs, out) =
              (fs, out @ [WarnFileNotFound (vueFilePath h cfg (relativePath r))])))"
proof (cases "isExcluded (excludeDirs cfg) (relativePath r)")
  case True
  then show ?thesis using patchRoute_excluded [OF True] by (simp add: isExcluded_iff)
next
  case False
  then have "snd (patchRoute h cfg r (fs, out)) \<noteq> out @ [LogIgnored (relativePath r)]"
    by (cases "fs (vueFilePath h cfg (relativePath r))")
      (simp_all add: patchRoute_missing patchRoute_written)
  then have "patchRoute h cfg r (fs, out) \<noteq> (fs, out @ [LogIgnored (relativePath r)])"
    by auto
  with False show ?thesis
    by (simp add: isExcluded_iff [symmetric] patchRoute_missing patchRoute_written)
qed

theorem exclusion_whole_segment_witness:
  "(\<exists>dir\<in>set [''error'']. dir \<in> set (split_on CHR ''/'' ''error/404''))
   \<and> patchRoute scenario_host \<lparr>viewsDir = ''/v'', excludeDirs = [''error'']\<rparr>
      \<lparr>name = ''NotFound'', relativePath = ''error/404''\<rparr>
      ([''/v/error/404.vue'' \<mapsto> ''<template/>''], []) =
     ([''/v/error/404.vue'' \<mapsto> ''<template/>''], [LogIgnored ''error/404''])
   \<and> \<not> (\<exists>dir\<in>set [''error'']. dir \<in> set (split_on CHR ''/'' ''errorLogs/404''))
   \<and> patchRoute scenario_host \<lparr>viewsDir = ''/v'', excludeDirs = [''error'']\<rparr>
      \<lparr>name = ''Logs'', relativePath = ''errorLogs/404''\<rparr>
      ([''/v/errorLogs/404.vue'' \<mapsto> ''<template/>''], []) =
     ([''/v/errorLogs/404.vue'' \<mapsto>
         ''<script setup>\<newline>defineOptions({ name: \"Logs\" });\<newline></script>\<newline><template/>''],
      [LogAddedScriptSetup ''/v/errorLogs/404.vue''])
   \<and> patchRoute scenario_host \<lparr>viewsDir = ''/v'', excludeDirs = [''error'']\<rparr>
      \<lparr>name = ''Logs'', relativePath = ''errorLogs/404''\<rparr> (Map.empty, []) =
     (Map.empty, [WarnFileNotFound ''/v/errorLogs/404.vue''])"
proof -
  let ?cfg = "\<lparr>viewsDir = ''/v'', excludeDirs = [''error'']\<rparr>"
  have 1: "\<exists>dir\<in>set [''error'']. dir \<in> set (split_on CHR ''/'' ''error/404'')"
    by simp
  have 2: "\<not> (\<exists>dir\<in>set [''error'']. dir \<in> set (split_on CHR ''/'' ''errorLogs/404''))"
    by simp
  have 3: "vueFilePath scenario_host ?cfg ''errorLogs/404'' = ''/v/errorLogs/404.vue''"
    by (simp add: vueFilePath_def scenario_host_def endsWith_def suffix_def)
  have 4: "match_script ''<template/>'' = None" by code_simp
  have 5: "patchContent (importEnds scenario_host) ''Logs'' ''<template/>'' =
      ''<script setup>\<newline>defineOptions({ name: \"Logs\" });\<newline></script>\<newline><template/>''"
    by (simp add: patchContent_None [OF 4] defineLine_def)
  show ?thesis
    using exclusion_whole_segment [of ?cfg "\<lparr>name = ''NotFound'', relativePath = ''error/404''\<rparr>"
        scenario_host "[''/v/error/404.vue'' \<mapsto> ''<template/>'']" "[]"]
      exclusion_whole_segment [of ?cfg "\<lparr>name = ''Logs'', relativePath = ''errorLogs/404''\<rparr>"
        scenario_host "[''/v/errorLogs/404.vue'' \<mapsto> ''<template/>'']" "[]"]
      exclusion_whole_segment [of ?cfg "\<lparr>name = ''Logs'', relativePath = ''errorLogs/404''\<rparr>"
        scenario_host "Map.empty" "[]"]
      1 2 3 4 5
    by simp
qed

text \<open>
  Claim C8. A file without any opening script tag gets one new block at the top, with the
  setup attribute and only the injected statement in it, and the original content follows
  unchanged.
\<close>

theorem synthesized_script_block:
  assumes "\<not> isExcluded (excludeDirs cfg) (relativePath r)"
    and "fs (vueFilePath h cfg (relativePath r)) = Some content"
    and "\<not> js_includes content ''<script''"
  shows "patchRoute h cfg r (fs, out) =
    (fs(vueFilePath h cfg (relativePath r) \<mapsto>
          ''<script setup>\<newline>defineOptions({ name: \"'' @ name r @ ''\" });\<newline></script>\<newline>'' @ content),
     out @ [LogAddedScriptSetup (vueFilePath h cfg (relativePath r))])"
proof -
  from assms(3) have "match_script content = None"
    by (simp add: match_script_None splitFirst_includes)
  then show ?thesis
    using patchRoute_written [of cfg r fs h content out] assms(1,2)
    by (simp add: patchContent_None defineLine_def)
qed

theorem synthesized_script_block_witness:
  "\<not> isExcluded [] ''home''
   \<and> [''/v/home.vue'' \<mapsto> ''<template/>''] (vueFilePath scenario_host \<lparr>viewsDir = ''/v'', excludeDirs = []\<rparr> ''home'') = Some ''<template/>''
   \<and> \<not> js_includes ''<template/>'' ''<script''
   \<and> patchRoute scenario_host \<lparr>viewsDir = ''/v'', excludeDirs = []\<rparr>
      \<lparr>name = ''Home'', relativePath = ''home''\<rparr> ([''/v/home.vue'' \<mapsto> ''<template/>''], []) =
     ([''/v/home.vue'' \<mapsto> ''<script setup>\<newline>defineOptions({ name: \"Home\" });\<newline></script>\<newline><template/>''],
      [LogAddedScriptSetup ''/v/home.vue''])"
proof -
  have 1: "\<not> isExcluded [] ''home''" by (simp add: isExcluded_def)
  have 2: "vueFilePath scenario_host \<lparr>viewsDir = ''/v'', excludeDirs = []\<rparr> ''home'' = ''/v/home.vue''"
    by (simp add: vueFilePath_def scenario_host_def endsWith_def suffix_def)
  have 3: "\<not> js_includes ''<template/>'' ''<script''" by code_simp
  show ?thesis
    using synthesized_script_block [of "\<lparr>viewsDir = ''/v'', excludeDirs = []\<rparr>"
        "\<lparr>name = ''Home'', relativePath = ''home''\<rparr>" "[''/v/home.vue'' \<mapsto> ''<template/>'']"
        scenario_host "''<template/>''" "[]"] 1 2 3
    by simp
qed

text \<open>
  Claim C4. With a script block in the file, the text before the first matched block and
  the text after it are in the output as they were, around the block that replaces it;
  without one, the whole original content follows the new block. No other file changes.
\<close>

theorem outside_script_preserved:
  assumes "\<not> isExcluded (excludeDirs cfg) (relativePath r)"
    and "fs (vueFilePath h cfg (relativePath r)) = Some content"
  shows "(\<forall>pre attrs sc post. match_script content = Some (pre, attrs, sc, post) \<longrightarrow>
            content = pre @ ''<script'' @ attrs @ ''>'' @ sc @ ''</script>'' @ post \<and>
            (\<exists>block. fst (patchRoute h cfg r (fs, out)) =
               fs(vueFilePath h cfg (relativePath r) \<mapsto> pre @ block @ post)))
       \<and> (match_script content = None \<longrightarrow>
            (\<exists>block. fst (patchRoute h cfg r (fs, out)) =
               fs(vueFilePath h cfg (relativePath r) \<mapsto> block @ content)))"
proof (intro conjI allI impI)
  fix pre attrs sc post
  assume m: "match_script content = Some (pre, attrs, sc, post)"
  show "content = pre @ ''<script'' @ attrs @ ''>'' @ sc @ ''</script>'' @ post"
    by (rule match_script_SomeD(1) [OF m])
  show "\<exists>block. fst (patchRoute h cfg r (fs, out)) =
      fs(vueFilePath h cfg (relativePath r) \<mapsto> pre @ block @ post)"
    unfolding patchRoute_written [of cfg r fs h content out, OF assms] patchContent_Some [OF m] fst_conv
    by blast
next
  assume "match_script content = None"
  then show "\<exists>block. fst (patchRoute h cfg r (fs, out)) =
      fs(vueFilePath h cfg (relativePath r) \<mapsto> block @ content)"
    unfolding patchRoute_written [of cfg r fs h content out, OF assms] fst_conv
    by (metis patchContent_None append.assoc)
qed

lemma witness_path:
  "vueFilePath scenario_host \<lparr>viewsDir = ''/v'', excludeDirs = []\<rparr> ''home'' = ''/v/home.vue''"
  by (simp add: vueFilePath_def scenario_host_def endsWith_def suffix_def)

lemma witness_match:
  "match_script ''<template/><script lang=\"ts\"> // defineOptions </script><style/>'' =
     Some (''<template/>'', '' lang=\"ts\"'', '' // defineOptions '', ''<style/>'')"
  by code_simp

lemma witness_patched:
  "patchContent ends nm ''<template/><script lang=\"ts\"> // defineOptions </script><style/>'' =
     ''<template/><script lang=\"ts\">\<newline>// defineOptions\<newline></script><style/>''"
proof -
  have 1: "js_includes '' // defineOptions '' ''defineOptions''" by code_simp
  have 2: "search_defineOptions '' // defineOptions '' = None" by code_simp
  have 3: "injectIntoScript ends nm '' // defineOptions '' = '' // defineOptions ''"
    unfolding injectIntoScript_def replace_defineOptions_def 2 using 1 by simp
  show ?thesis
    unfolding patchContent_Some [OF witness_match] 3
    by (simp add: trim_def is_space_def)
qed

theorem outside_script_preserved_witness:
  "\<not> isExcluded [] ''home''
   \<and> match_script ''<template/><script lang=\"ts\"> // defineOptions </script><style/>'' =
       Some (''<template/>'', '' lang=\"ts\"'', '' // defineOptions '', ''<style/>'')
   \<and> fst (patchRoute scenario_host \<lparr>viewsDir = ''/v'', excludeDirs = []\<rparr>
        \<lparr>name = ''Home'', relativePath = ''home''\<rparr>
        ([''/v/home.vue'' \<mapsto> ''<template/><script lang=\"ts\"> // defineOptions </script><style/>''], [])) =
      [''/v/home.vue'' \<mapsto> ''<template/>'' @ ''<script lang=\"ts\">\<newline>// defineOptions\<newline></script>'' @ ''<style/>'']"
proof -
  have 1: "\<not> isExcluded [] ''home''" by (simp add: isExcluded_def)
  show ?thesis
    using outside_script_preserved [of "\<lparr>viewsDir = ''/v'', excludeDirs = []\<rparr>"
        "\<lparr>name = ''Home'', relativePath = ''home''\<rparr>"
        "[''/v/home.vue'' \<mapsto> ''<template/><script lang=\"ts\"> // defineOptions </script><style/>'']"
        scenario_host "''<template/><script lang=\"ts\"> // defineOptions </script><style/>''" "[]"]
      1 witness_match
    by (simp add: witness_path patchRoute_written witness_patched)
qed



section \<open>The extractor\<close>

lemma replace_str_prefix:
  "replace_str (p @ rest) p [] = rest"
  by (simp add: replace_str_def splitFirst_prefix del: splitFirst.simps)

lemma strip_views_prefix:
  assumes "startsWith importPath ''@/views/''"
  shows "replace_str importPath ''@/views/'' [] = drop 8 importPath"
proof -
  from assms obtain rest where "importPath = ''@/views/'' @ rest"
    by (auto simp: startsWith_def prefix_def)
  then show ?thesis using replace_str_prefix [of "''@/views/''" rest] by simp
qed

lemma withDescendants_head: "\<exists>ds. withDescendants n = n # ds"
  by (cases n) simp_all

lemma self_in_withDescendants: "n \<in> set (withDescendants n)"
  using withDescendants_head [of n] by auto

lemma getDescendants_subset: "set (getDescendants n) \<subseteq> set (withDescendants n)"
  using withDescendants_head [of n] by (auto simp: getDescendants_def)

lemma withDescendants_trans:
  "d \<in> set (withDescendants n) \<Longrightarrow> x \<in> set (withDescendants d) \<Longrightarrow> x \<in> set (withDescendants n)"
proof (induction n arbitrary: d)
  case (VariableDeclaration n i)
  then show ?case by (cases i) (auto simp: option.set_sel)
qed (auto)

lemma descendants_closed:
  assumes "d \<in> set (getDescendants n)"
  shows "set (withDescendants d) \<subseteq> set (getDescendants n)"
  using assms
  by (cases n) (auto simp: getDescendants_def dest: withDescendants_trans split: option.splits)

lemma getDescendants_trans:
  assumes "d \<in> set (getDescendants n)" "x \<in> set (getDescendants d)"
  shows "x \<in> set (getDescendants n)"
  using descendants_closed [OF assms(1)] getDescendants_subset [of d] assms(2) by blast

lemma find_holds: "find P xs = Some x \<Longrightarrow> P x"
  by (induction xs) (auto split: if_splits)

lemma getFirstDescendantByKind_SomeD:
  "getFirstDescendantByKind n k = Some d \<Longrightarrow> d \<in> set (getDescendants n) \<and> getKind d = k"
  unfolding getFirstDescendantByKind_def by (auto simp: find_Some_iff)

lemma getProperty_SomeD:
  "getProperty ps nm = Some p \<Longrightarrow> p \<in> set ps \<and> getName p = Some nm"
  unfolding getProperty_def by (auto simp: find_Some_iff)

text \<open>What a pushed route was read from.\<close>

lemma extractRoute_SomeD:
  assumes "extractRoute e = Some r"
  shows "\<exists>props nameProp compProp arrowFn f args importPath.
      e = ObjectLiteralExpression props
      \<and> getProperty props ''name'' = Some nameProp
      \<and> getProperty props ''component'' = Some compProp
      \<and> getFirstDescendantByKind nameProp StringLiteralKind = Some (StringLiteral (name r))
      \<and> name r \<noteq> []
      \<and> getFirstDescendantByKind compProp ArrowFunctionKind = Some arrowFn
      \<and> find calleeIsImport (getDescendantsOfKind arrowFn CallExpressionKind) =
            Some (CallExpression f (StringLiteral importPath # args))
      \<and> prefix ''@/views/'' importPath
      \<and> relativePath r = drop 8 importPath"
  using assms unfolding extractRoute_def
  by (auto split: node.splits option.splits list.splits if_splits
      simp: strip_views_prefix startsWith_def)

lemma matchedRoutesOf_memD:
  assumes "r \<in> set (matchedRoutesOf elements)"
  shows "\<exists>e\<in>set elements. extractRoute e = Some r"
  using assms unfolding matchedRoutesOf_def by (auto simp: List.map_filter_def)

text \<open>
  Claim C3, as the code has it. Every emitted route was read from one element of the
  array: its name is the first string literal of that element's \<^verbatim>\<open>name\<close> property, and
  its relative path is what follows \<^verbatim>\<open>@/views/\<close> in the string literal that is the first
  argument of the first call of \<^verbatim>\<open>import\<close> inside the first arrow function of that
  element's \<^verbatim>\<open>component\<close> property. The prefix is removed once, whatever follows it:
  nothing requires the rest to be non-empty or not to start with the prefix again.
\<close>

theorem relativePath_follows_prefix:
  assumes "r \<in> set (matchedRoutesOf elements)"
  shows "\<exists>e\<in>set elements. \<exists>props nameProp compProp arrowFn f args.
       extractRoute e = Some r
     \<and> e = ObjectLiteralExpression props
     \<and> getProperty props ''name'' = Some nameProp
     \<and> getFirstDescendantByKind nameProp StringLiteralKind = Some (StringLiteral (name r))
     \<and> getProperty props ''component'' = Some compProp
     \<and> getFirstDescendantByKind compProp ArrowFunctionKind = Some arrowFn
     \<and> find calleeIsImport (getDescendantsOfKind arrowFn CallExpressionKind) =
         Some (CallExpression f (StringLiteral (''@/views/'' @ relativePath r) # args))
     \<and> calleeIsImport (CallExpression f (StringLiteral (''@/views/'' @ relativePath r) # args))
     \<and> CallExpression f (StringLiteral (''@/views/'' @ relativePath r) # args)
         \<in> set (getDescendants e)"
proof -
  from matchedRoutesOf_memD [OF assms] obtain e where e: "e \<in> set elements"
    and ex: "extractRoute e = Some r" by blast
  from extractRoute_SomeD [OF ex] obtain props nameProp compProp arrowFn f args importPath
    where obj: "e = ObjectLiteralExpression props"
      and nm: "getProperty props ''name'' = Some nameProp"
      and comp: "getProperty props ''component'' = Some compProp"
      and lit: "getFirstDescendantByKind nameProp StringLiteralKind = Some (StringLiteral (name r))"
      and arrow: "getFirstDescendantByKind compProp ArrowFunctionKind = Some arrowFn"
      and call: "find calleeIsImport (getDescendantsOfKind arrowFn CallExpressionKind) =
            Some (CallExpression f (StringLiteral importPath # args))"
      and pre: "prefix ''@/views/'' importPath"
      and rel: "relativePath r = drop 8 importPath"
    by blast
  from pre rel have path: "importPath = ''@/views/'' @ relativePath r"
    by (auto simp: prefix_def)
  from call have isImport: "calleeIsImport (CallExpression f (StringLiteral importPath # args))"
    by (rule find_holds)
  from call have "CallExpression f (StringLiteral importPath # args) \<in> set (getDescendants arrowFn)"
    by (auto simp: find_Some_iff getDescendantsOfKind_def dest: nth_mem)
  moreover from arrow have "arrowFn \<in> set (getDescendants compProp)"
    by (simp add: getFirstDescendantByKind_SomeD)
  moreover from comp have "compProp \<in> set (getDescendants e)"
    unfolding obj using self_in_withDescendants [of compProp]
    by (auto simp: getDescendants_def dest!: getProperty_SomeD)
  ultimately have "CallExpression f (StringLiteral importPath # args) \<in> set (getDescendants e)"
    by (meson getDescendants_trans)
  with e ex obj nm comp lit arrow call isImport show ?thesis
    unfolding path by blast
qed

lemma c3_routes:
  "matchedRoutesOf [descriptor ''Home'' ''@/views/'', descriptor ''Twice'' ''@/views/@/views/x''] =
     [\<lparr>name = ''Home'', relativePath = ''''\<rparr>, \<lparr>name = ''Twice'', relativePath = ''@/views/x''\<rparr>]"
  by code_simp

theorem relativePath_follows_prefix_witness:
  "\<lparr>name = ''Home'', relativePath = ''''\<rparr> \<in> set (matchedRoutesOf [descriptor ''Home'' ''@/views/''])
   \<and> (\<exists>e\<in>set [descriptor ''Home'' ''@/views/'']. \<exists>props nameProp compProp arrowFn f args.
         extractRoute e = Some \<lparr>name = ''Home'', relativePath = ''''\<rparr>
       \<and> e = ObjectLiteralExpression props
       \<and> getProperty props ''name'' = Some nameProp
       \<and> getFirstDescendantByKind nameProp StringLiteralKind = Some (StringLiteral ''Home'')
       \<and> getProperty props ''component'' = Some compProp
       \<and> getFirstDescendantByKind compProp ArrowFunctionKind = Some arrowFn
       \<and> find calleeIsImport (getDescendantsOfKind arrowFn CallExpressionKind) =
           Some (CallExpression f (StringLiteral ''@/views/'' # args))
       \<and> calleeIsImport (CallExpression f (StringLiteral ''@/views/'' # args))
       \<and> CallExpression f (StringLiteral ''@/views/'' # args) \<in> set (getDescendants e))"
proof -
  have 1: "matchedRoutesOf [descriptor ''Home'' ''@/views/''] = [\<lparr>name = ''Home'', relativePath = ''''\<rparr>]"
    by code_simp
  then have 2: "\<lparr>name = ''Home'', relativePath = ''''\<rparr> \<in> set (matchedRoutesOf [descriptor ''Home'' ''@/views/''])"
    by simp
  from relativePath_follows_prefix [OF 2] 2 show ?thesis by simp
qed

text \<open>
  An import of the bare prefix gives an empty relative path, and an import path that
  repeats the prefix gives a relative path that starts with it.
\<close>

theorem relativePath_empty_or_prefixed_counterexample:
  "matchedRoutesOf [descriptor ''Home'' ''@/views/'', descriptor ''Twice'' ''@/views/@/views/x''] =
     [\<lparr>name = ''Home'', relativePath = ''''\<rparr>, \<lparr>name = ''Twice'', relativePath = ''@/views/x''\<rparr>]
   \<and> startsWith ''@/views/x'' ''@/views/''"
  using c3_routes by (simp add: startsWith_def)

section \<open>Structural failures\<close>

lemma arrayOrAsserted_None_iff:
  "arrayOrAsserted e = None \<longleftrightarrow> \<not> (isArrayLiteral e \<or> isAssertedArray e)"
  by (cases e rule: arrayOrAsserted.cases) (simp_all add: isArrayLiteral_def isAssertedArray_def)

lemma resolveRouteArray_None_iff:
  "resolveRouteArray e = None \<longleftrightarrow> \<not> resolvesToArray e"
  by (cases e)
    (auto simp: resolvesToArray_def isArrayLiteral_def isAssertedArray_def arrayOrAsserted_None_iff
      split: node.splits option.splits)

lemma no_export_assignment:
  assumes "exportExpr sourceFile = None"
  shows "exportExpression sourceFile = None"
proof -
  have "find (\<lambda>d. getKind d = ExportAssignmentKind) (getDescendants sourceFile) = None"
  proof (cases "find (\<lambda>d. getKind d = ExportAssignmentKind) (getDescendants sourceFile)")
    case None
    then show ?thesis .
  next
    case (Some d)
    then have "getKind d = ExportAssignmentKind" by (rule find_holds)
    then obtain q e where "d = ExportAssignment q e" by (cases d) simp_all
    with Some assms show ?thesis
      by (simp add: exportExpr_def getFirstDescendantByKind_def)
  qed
  then have "\<not> isDefaultExport d" if "d \<in> set (getDescendants sourceFile)" for d
    using that by (cases d) (auto simp: find_None_iff isDefaultExport_def)
  then have "find isDefaultExport (getDescendants sourceFile) = None"
    by (simp add: find_None_iff)
  then show ?thesis by (simp add: exportExpression_def)
qed

text \<open>
  Claim C7, as the code has it. The run takes the first export assignment of the file,
  \<^verbatim>\<open>export default e\<close> or \<^verbatim>\<open>export = e\<close> alike. Without any export assignment (and
  then without a default export), or with one whose expression none of the three shapes
  resolves to an array literal, the run prints one error and leaves every file as it was.
\<close>

theorem structural_failure_aborts:
  "(exportExpr sourceFile = None \<longrightarrow>
      exportExpression sourceFile = None
      \<and> injectDefineOptions h cfg sourceFile fs = (fs, [ErrorNoExportDefault]))
   \<and> (\<forall>e. exportExpr sourceFile = Some e \<and> \<not> resolvesToArray e \<longrightarrow>
      injectDefineOptions h cfg sourceFile fs = (fs, [ErrorNotAnArray]))"
  using no_export_assignment [of sourceFile]
  unfolding exportExpr_def injectDefineOptions_def
  by (auto split: option.splits node.splits simp: resolveRouteArray_None_iff [symmetric])

theorem structural_failure_aborts_witness:
  "exportExpr (SourceFile []) = None
   \<and> exportExpression (SourceFile []) = None
   \<and> injectDefineOptions scenario_host scenario_config (SourceFile []) scenario_files =
       (scenario_files, [ErrorNoExportDefault])
   \<and> exportExpr (SourceFile [ExportAssignment False (ObjectLiteralExpression [])]) =
       Some (ObjectLiteralExpression [])
   \<and> \<not> resolvesToArray (ObjectLiteralExpression [])
   \<and> injectDefineOptions scenario_host scenario_config
        (SourceFile [ExportAssignment False (ObjectLiteralExpression [])]) scenario_files =
       (scenario_files, [ErrorNotAnArray])"
proof -
  have 1: "exportExpr (SourceFile []) = None"
    by (simp add: exportExpr_def getFirstDescendantByKind_def getDescendants_def)
  have 2: "exportExpr (SourceFile [ExportAssignment False (ObjectLiteralExpression [])]) =
       Some (ObjectLiteralExpression [])"
    by (simp add: exportExpr_def getFirstDescendantByKind_def getDescendants_def)
  have 3: "\<not> resolvesToArray (ObjectLiteralExpression [])"
    by (simp add: resolvesToArray_def isArrayLiteral_def isAssertedArray_def)
  show ?thesis
    using structural_failure_aborts [of "SourceFile []" scenario_host scenario_config scenario_files]
      structural_failure_aborts [of "SourceFile [ExportAssignment False (ObjectLiteralExpression [])]"
        scenario_host scenario_config scenario_files] 1 2 3
    by simp
qed

text \<open>
  A route file whose only export assignment is \<^verbatim>\<open>export = [...]\<close> has no default export,
  yet the run reports no error and patches the component of its route.
\<close>

lemma c7_route:
  "matchedRoutesOf [descriptor ''A'' ''@/views/a''] = [\<lparr>name = ''A'', relativePath = ''a''\<rparr>]"
  by code_simp

lemma c7_patch:
  "patchRoute scenario_host \<lparr>viewsDir = ''/v'', excludeDirs = []\<rparr>
      \<lparr>name = ''A'', relativePath = ''a''\<rparr> ([''/v/a.vue'' \<mapsto> ''<template/>''], []) =
     ([''/v/a.vue'' \<mapsto> ''<script setup>\<newline>defineOptions({ name: \"A\" });\<newline></script>\<newline><template/>''],
      [LogAddedScriptSetup ''/v/a.vue''])"
proof -
  let ?cfg = "\<lparr>viewsDir = ''/v'', excludeDirs = []\<rparr>"
  let ?r = "\<lparr>name = ''A'', relativePath = ''a''\<rparr>"
  have 1: "\<not> isExcluded (excludeDirs ?cfg) (relativePath ?r)" by (simp add: isExcluded_def)
  have 2: "vueFilePath scenario_host ?cfg ''a'' = ''/v/a.vue''"
    by (simp add: vueFilePath_def scenario_host_def endsWith_def suffix_def)
  have 3: "match_script ''<template/>'' = None" by code_simp
  show ?thesis
    using patchRoute_written [of ?cfg ?r "[''/v/a.vue'' \<mapsto> ''<template/>'']" scenario_host
        "''<template/>''" "[]"] 1 2 3
    by (simp add: patchContent_None defineLine_def)
qed

theorem export_equals_patched_counterexample:
  "exportExpression (SourceFile [ExportAssignment True
       (ArrayLiteralExpression [descriptor ''A'' ''@/views/a''])]) = None
   \<and> injectDefineOptions scenario_host \<lparr>viewsDir = ''/v'', excludeDirs = []\<rparr>
       (SourceFile [ExportAssignment True (ArrayLiteralExpression [descriptor ''A'' ''@/views/a''])])
       [''/v/a.vue'' \<mapsto> ''<template/>''] =
     ([''/v/a.vue'' \<mapsto> ''<script setup>\<newline>defineOptions({ name: \"A\" });\<newline></script>\<newline><template/>''],
      [LogAddedScriptSetup ''/v/a.vue''])"
proof -
  let ?sf = "SourceFile [ExportAssignment True (ArrayLiteralExpression [descriptor ''A'' ''@/views/a''])]"
  have 1: "exportExpression ?sf = None"
    by (simp add: exportExpression_def isDefaultExport_def getDescendants_def descriptor_def)
  have 2: "getFirstDescendantByKind ?sf ExportAssignmentKind =
      Some (ExportAssignment True (ArrayLiteralExpression [descriptor ''A'' ''@/views/a'']))"
    by (simp add: getFirstDescendantByKind_def getDescendants_def)
  show ?thesis
    unfolding injectDefineOptions_def 2
    using 1 by (simp add: c7_route c7_patch)
qed

section \<open>Well-formed and malformed elements\<close>

lemma importedPath_SomeD:
  assumes "importedPath a = Some p"
  shows "\<exists>f rest. find calleeIsImport (getDescendantsOfKind a CallExpressionKind) =
      Some (CallExpression f (StringLiteral p # rest))"
  using assms unfolding importedPath_def
  by (auto split: option.splits node.splits list.splits)









section \<open>The console of a run\<close>









section \<open>Facts about the call pattern\<close>











lemma spaces_decomp: "\<exists>w. r = w @ spaces r \<and> (\<forall>c\<in>set w. is_space c)"
  by (rule exI [of _ "takeWhile is_space r"]) (auto simp: spaces_def dest: set_takeWhileD)




subsection \<open>White space after an attempt\<close>






subsection \<open>The search\<close>








subsection \<open>A statement that the pattern does not match\<close>






section \<open>Facts about trimming\<close>

lemma trim_halves: "trim s = trimEnd (spaces s)"
  by (simp add: trim_def trimEnd_def spaces_def)









lemma trim_decomp:
  "\<exists>w1 w2. s = w1 @ trim s @ w2 \<and> (\<forall>c\<in>set w1. is_space c) \<and> (\<forall>c\<in>set w2. is_space c)"
proof -
  obtain w1 where w1: "s = w1 @ spaces s" "\<forall>c\<in>set w1. is_space c" using spaces_decomp by blast
  have "rev (spaces s) = takeWhile is_space (rev (spaces s)) @ dropWhile is_space (rev (spaces s))"
    by simp
  then have "spaces s = trimEnd (spaces s) @ rev (takeWhile is_space (rev (spaces s)))"
    unfolding trimEnd_def by (metis rev_append rev_rev_ident)
  moreover have "\<forall>c\<in>set (rev (takeWhile is_space (rev (spaces s)))). is_space c"
    by (auto dest: set_takeWhileD)
  ultimately show ?thesis using w1 unfolding trim_halves by metis
qed

lemma set_trim: "set (trim s) \<subseteq> set s"
  using trim_decomp [of s] by (metis Un_upper1 Un_upper2 set_append subset_trans)


section \<open>Facts about the injected statement\<close>



lemma set_defineLine:
  "set (defineLine nm) = set nm \<union> set ''defineOptions({ name: \"\" });''"
  by (auto simp: defineLine_def)



section \<open>Where a pattern cannot occur\<close>



lemma sublist_after_foreign:
  assumes "h \<notin> set u" "sublist (h # t) (u @ v)"
  shows "sublist (h # t) v"
  using assms
proof (induction u)
  case Nil
  then show ?case by simp
next
  case (Cons x u)
  then have "\<not> prefix (h # t) (x # u @ v)" by auto
  with Cons show ?case by (simp add: sublist_Cons_right)
qed






subsection \<open>Inert replacement templates\<close>











section \<open>The second pass over an injected statement\<close>











section \<open>Patching a patched file\<close>



































end
